theory Spec2Isabelle
  imports Main
begin

section \<open>The news bot of \<open>main.py\<close>\<close>

text \<open>
  The bot polls a fixed table of RSS feeds, asks a local language model for a headline and
  a summary of each article it has not posted yet, posts the result to two Discord channels
  and remembers the article's URL in an SQLite table. This theory embeds
  \<open>DatabaseManager\<close> and \<open>NewsBot\<close> of \<open>main.py\<close>: the table is a list of rows, the
  network (feeds, language model, Discord) is a record of oracles, the bot's mutable state
  is passed explicitly and every Python exception is a value.
\<close>

subsection \<open>Exceptions\<close>

datatype exn =
    AttributeError string
  | KeyError string
  | UnboundLocalError string
  | IntegrityError string
  | RuntimeError string

subsection \<open>\<open>DatabaseManager\<close>\<close>

text \<open>
  Table \<open>posted_articles (url TEXT PRIMARY KEY, summary TEXT, posted_at TIMESTAMP DEFAULT
  CURRENT_TIMESTAMP)\<close>. A row is the pair of \<open>url\<close> and \<open>summary\<close>; \<open>posted_at\<close> is
  filled in by SQLite and read by no code of the repository, so it is left out. Rows are
  kept in insertion order.
\<close>

type_synonym row = "string \<times> string"
type_synonym posted_articles = "row list"

text \<open>
  \<open>CREATE TABLE IF NOT EXISTS\<close>: a database file without the table (\<open>None\<close>) gets an empty
  one, an existing table is kept. The \<open>ALTER TABLE ... ADD COLUMN summary\<close> that follows
  raises \<open>OperationalError\<close> on a table that has the column, which \<open>create_table\<close>
  swallows.
\<close>

definition create_table :: "posted_articles option \<Rightarrow> posted_articles" where
  "create_table disk = (case disk of None \<Rightarrow> [] | Some t \<Rightarrow> t)"

text \<open>\<open>SELECT 1 FROM posted_articles WHERE url = ?\<close> and \<open>fetchone() is not None\<close>.\<close>

definition is_posted :: "string \<Rightarrow> posted_articles \<Rightarrow> bool" where
  "is_posted u t = list_ex (\<lambda>r. fst r = u) t"

text \<open>
  \<open>INSERT INTO posted_articles (url, summary) VALUES (?, ?)\<close>: the primary key makes
  SQLite raise \<open>IntegrityError\<close> when a row with that \<open>url\<close> exists.
\<close>

definition sql_insert :: "string \<Rightarrow> string \<Rightarrow> posted_articles \<Rightarrow> exn + posted_articles" where
  "sql_insert u s t =
     (if list_ex (\<lambda>r. fst r = u) t
      then Inl (IntegrityError ''UNIQUE constraint failed: posted_articles.url'')
      else Inr (t @ [(u, s)]))"

text \<open>\<open>add_article\<close>: the insert, with \<open>except sqlite3.IntegrityError: pass\<close>.\<close>

definition add_article :: "string \<Rightarrow> string \<Rightarrow> posted_articles \<Rightarrow> exn + posted_articles" where
  "add_article u s t =
     (case sql_insert u s t of
        Inl (IntegrityError m) \<Rightarrow> Inr t
      | Inl e \<Rightarrow> Inl e
      | Inr t' \<Rightarrow> Inr t')"

subsection \<open>Python strings\<close>

text \<open>
  A string is a list of characters, each standing for the code point of its code.
  \<open>str.strip()\<close> removes leading and trailing whitespace; among the code points below 256
  \<open>str.isspace\<close> holds of 9 to 13, of 28 to 32, of 133 (next line) and of 160 (no-break
  space).
\<close>

definition isspace :: "char \<Rightarrow> bool" where
  "isspace c =
     (let n = (of_char c :: nat)
      in (9 \<le> n \<and> n \<le> 13) \<or> (28 \<le> n \<and> n \<le> 32) \<or> n = 133 \<or> n = 160)"

definition strip :: "string \<Rightarrow> string" where
  "strip s = rev (dropWhile isspace (rev (dropWhile isspace s)))"

text \<open>The decimal digits of a natural number, as an f-string prints an \<open>int\<close>.\<close>

fun str_nat :: "nat \<Rightarrow> string" where
  "str_nat n =
     (if n < 10 then [char_of (48 + n)]
      else str_nat (n div 10) @ [char_of (48 + n mod 10)])"

declare str_nat.simps [simp del]

text \<open>
  \<open>re.sub(r'<[^>]+>', '', s)\<close>: scanning from the left, a \<open><\<close> that is followed by at
  least one character other than \<open>>\<close> and then by a \<open>>\<close> is deleted together with
  everything up to that first \<open>>\<close>; the scan resumes behind it. Any other character is
  kept. (The class \<open>[^>]\<close> also matches \<open><\<close> and newlines, and the greedy \<open>+\<close> can only
  end at the first \<open>>\<close>.)
\<close>

function re_sub_tags :: "string \<Rightarrow> string" where
  "re_sub_tags [] = []"
| "re_sub_tags (c # cs) =
     (if c = CHR ''<''
        \<and> takeWhile (\<lambda>x. x \<noteq> CHR ''>'') cs \<noteq> []
        \<and> dropWhile (\<lambda>x. x \<noteq> CHR ''>'') cs \<noteq> []
      then re_sub_tags (tl (dropWhile (\<lambda>x. x \<noteq> CHR ''>'') cs))
      else c # re_sub_tags cs)"
  by pat_completeness auto
termination
  by (relation "measure length") (auto simp: less_Suc_eq_le intro: order_trans [OF diff_le_self length_dropWhile_le])

text \<open>Whether a match of \<open><[^>]+>\<close> starts somewhere in the string.\<close>

fun has_tag :: "string \<Rightarrow> bool" where
  "has_tag [] = False"
| "has_tag (c # cs) =
     ((c = CHR ''<''
        \<and> takeWhile (\<lambda>x. x \<noteq> CHR ''>'') cs \<noteq> []
        \<and> dropWhile (\<lambda>x. x \<noteq> CHR ''>'') cs \<noteq> [])
      \<or> has_tag cs)"

subsection \<open>Configuration\<close>

definition GLOBAL_CHANNEL_ID :: nat where
  "GLOBAL_CHANNEL_ID = 1400070228666486837"

definition RSS_AGENT :: string where
  "RSS_AGENT = ''Mozilla/5.0 (Windows NT 10.0; Win64; x64) AppleWebKit/537.36 (KHTML, like Gecko) Chrome/115.0.0.0 Safari/537.36''"

text \<open>
  An entry of \<open>NEWS_SOURCES\<close>. \<open>config.get("channel_id")\<close> is \<open>None\<close> for a missing key;
  \<open>config["rss_url"]\<close> raises \<open>KeyError\<close> for one.
\<close>

record config =
  channel_id :: "nat option"
  rss_url :: "string option"

text \<open>The dictionary \<open>NEWS_SOURCES\<close>, in the order of its keys.\<close>

definition NEWS_SOURCES :: "(string \<times> config) list" where
  "NEWS_SOURCES =
     [(''JP'', \<lparr>channel_id = Some 1385660657700966510,
               rss_url = Some ''https://www3.nhk.or.jp/nhkworld/en/news/list.xml''\<rparr>),
      (''US'', \<lparr>channel_id = Some 1385660708506697959,
               rss_url = Some ''https://www.cbsnews.com/latest/rss/world''\<rparr>),
      (''GB'', \<lparr>channel_id = Some 1385660728131846354,
               rss_url = Some ''https://feeds.bbci.co.uk/news/world/rss.xml''\<rparr>),
      (''FR'', \<lparr>channel_id = Some 1385660688277700729,
               rss_url = Some ''https://www.france24.com/en/rss''\<rparr>),
      (''DE'', \<lparr>channel_id = Some 1385660749266944040,
               rss_url = Some ''https://rss.dw.com/xml/rss-en-world''\<rparr>),
      (''IT'', \<lparr>channel_id = Some 1385660782313996428,
               rss_url = Some ''https://www.ansa.it/sito/ansait_rss/english_news.xml''\<rparr>),
      (''CA'', \<lparr>channel_id = Some 1385660814731776332,
               rss_url = Some ''https://www.cbc.ca/cmlink/rss-world''\<rparr>),
      (''IN'', \<lparr>channel_id = Some 1385660837095804959,
               rss_url = Some ''https://timesofindia.indiatimes.com/rssfeeds/296589292.cms''\<rparr>),
      (''CN'', \<lparr>channel_id = Some 1385660867231875173,
               rss_url = Some ''https://www.scmp.com/rss/318206/feed''\<rparr>)]"

subsection \<open>The world outside the process\<close>

text \<open>
  A feed entry as \<open>process_rss\<close> reads it: \<open>entry.link\<close> and \<open>entry.title\<close> raise
  \<open>AttributeError\<close> when the feed gave none, \<open>entry.get('description')\<close> and
  \<open>entry.get('summary')\<close> are \<open>None\<close> then.
\<close>

record entry =
  link :: "string option"
  title :: "string option"
  description :: "string option"
  summary :: "string option"

text \<open>What \<open>feedparser.parse\<close> does: it raises, or returns a feed with its entries.\<close>

datatype feed_reply = ParseRaises exn | Feed "entry list"

text \<open>
  What the POST to the generation endpoint does: an exception somewhere inside the \<open>try\<close>
  block (connection, JSON decoding) with its \<open>str(e)\<close>, or a response with its status and
  the \<open>"response"\<close> field of its JSON body (\<open>None\<close> when the field is missing).
\<close>

datatype llm_reply = PostRaises string | Response nat "string option"

text \<open>
  The collaborators are oracles. Each takes the bot's clock, which advances at every
  \<open>await\<close>, so that the same request may be answered differently at different times:
  \<open>channels\<close> says whether \<open>get_channel\<close> finds a channel, \<open>feedparser_parse\<close> takes the
  URL and the user agent, \<open>ollama\<close> takes the prompt, \<open>discord_send\<close> takes the channel and
  the message and returns the exception \<open>channel.send\<close> raises, if any.
\<close>

record world =
  channels :: "nat \<Rightarrow> nat \<Rightarrow> bool"
  feedparser_parse :: "nat \<Rightarrow> string \<Rightarrow> string \<Rightarrow> feed_reply"
  ollama :: "nat \<Rightarrow> string \<Rightarrow> llm_reply"
  discord_send :: "nat \<Rightarrow> nat \<Rightarrow> string \<Rightarrow> exn option"

subsection \<open>\<open>NewsBot\<close>\<close>

text \<open>
  The calls the bot makes to the outside, in order: a feed fetched, a prompt posted to the
  language model, a message sent to a channel, a pause of some seconds.
\<close>

datatype event = Fetch string | Generate string | Send nat string | Sleep nat

text \<open>The bot's state: the table, the clock and the calls made so far.\<close>

record bot =
  db :: posted_articles
  clock :: nat
  trace :: "event list"

definition await :: "event \<Rightarrow> bot \<Rightarrow> bot" where
  "await ev st = st\<lparr>clock := Suc (clock st), trace := trace st @ [ev]\<rparr>"

definition summary_instruction :: string where
  "summary_instruction =
     ''Read the following news snippet. '' @
     ''1. Identify the language and translate it into English if needed. '' @
     ''2. Extract the key facts and output them as 'Key Points' in 3 bullet points or less. '' @
     ''Do not add any introductory text like 'Here is the summary'. Just the bullet points.:'' @
     [CHR 0x0A, CHR 0x0A]"

definition title_instruction :: string where
  "title_instruction =
     ''Translate to English and create a short, catchy headline (under 10 words) for this news:'' @
     [CHR 0x0A, CHR 0x0A]"

text \<open>
  The \<open>try\<close> block of \<open>query_llm\<close>, as a function of what the POST did: status 200 gives
  \<open>data.get("response", "").strip()\<close>, any other status gives \<open>Error:\<close> and the status,
  an exception gives \<open>LLM Error:\<close> and its text. Every outcome is a returned string.
\<close>

definition llm_result :: "llm_reply \<Rightarrow> string" where
  "llm_result r =
     (case r of
        Response status body \<Rightarrow>
          if status = 200
          then strip (case body of None \<Rightarrow> [] | Some b \<Rightarrow> b)
          else ''Error: '' @ str_nat status
      | PostRaises e \<Rightarrow> ''LLM Error: '' @ e)"

text \<open>
  \<open>query_llm\<close>. \<open>system_instruction\<close> is bound for the modes \<open>summary\<close> and \<open>title\<close> only;
  for any other mode building the payload raises \<open>UnboundLocalError\<close>, before the \<open>try\<close>.
\<close>

definition query_llm :: "world \<Rightarrow> string \<Rightarrow> string \<Rightarrow> bot \<Rightarrow> (exn + string) \<times> bot" where
  "query_llm w text mode st =
     (case (if mode = ''summary'' then Some summary_instruction
            else if mode = ''title'' then Some title_instruction
            else None) of
        None \<Rightarrow> (Inl (UnboundLocalError ''system_instruction''), st)
      | Some system_instruction \<Rightarrow>
          (let prompt = system_instruction @ text in
           (Inr (llm_result (ollama w (clock st) prompt)), await (Generate prompt) st)))"

definition get_feed :: "world \<Rightarrow> string \<Rightarrow> bot \<Rightarrow> feed_reply \<times> bot" where
  "get_feed w u st = (feedparser_parse w (clock st) u RSS_AGENT, await (Fetch u) st)"

definition send :: "world \<Rightarrow> nat \<Rightarrow> string \<Rightarrow> bot \<Rightarrow> exn option \<times> bot" where
  "send w channel message st = (discord_send w (clock st) channel message, await (Send channel message) st)"

text \<open>
  The operand of a Python \<open>or\<close> that decides it: a string other than \<open>None\<close> and
  \<open>""\<close>.
\<close>

definition truthy :: "string option \<Rightarrow> string option" where
  "truthy x = (case x of None \<Rightarrow> None | Some s \<Rightarrow> if s = [] then None else Some s)"

text \<open>
  The text for the summary, lines 185 to 190 of \<open>process_rss\<close>:
  \<open>entry.get('description') or entry.get('summary') or entry.title\<close>, where \<open>entry.title\<close>
  is read (and may raise) only when the two others are empty, and then
  \<open>re.sub(r'<[^>]+>', '', raw_text)\<close> under \<open>if raw_text and "<" in raw_text\<close>.
\<close>

definition extract_text :: "entry \<Rightarrow> exn + string" where
  "extract_text e =
     (case (case truthy (description e) of
              Some d \<Rightarrow> Inr d
            | None \<Rightarrow>
                (case truthy (summary e) of
                   Some s \<Rightarrow> Inr s
                 | None \<Rightarrow>
                     (case title e of
                        None \<Rightarrow> Inl (AttributeError ''title'')
                      | Some t \<Rightarrow> Inr t))) of
        Inl x \<Rightarrow> Inl x
      | Inr raw_text \<Rightarrow>
          Inr (if raw_text \<noteq> [] \<and> CHR ''<'' \<in> set raw_text
               then re_sub_tags raw_text else raw_text))"

text \<open>
  The two sends, lines 201 to 207 of \<open>process_rss\<close>: the message goes to the channel of
  the source, then \<open>get_channel(GLOBAL_CHANNEL_ID)\<close> is looked up and, if found, gets the
  message behind the country in brackets. An exception of \<open>channel.send\<close> is not caught
  here.
\<close>

definition fanout :: "world \<Rightarrow> string \<Rightarrow> nat \<Rightarrow> string \<Rightarrow> bot \<Rightarrow> exn option \<times> bot" where
  "fanout w country channel message st =
     (case send w channel message st of
        (Some x, st1) \<Rightarrow> (Some x, st1)
      | (None, st1) \<Rightarrow>
          if channels w (clock st1) GLOBAL_CHANNEL_ID
          then send w GLOBAL_CHANNEL_ID (''['' @ country @ ''] '' @ message) st1
          else (None, st1))"

text \<open>The message, line 199: \<open>f"**{title_en}**\n\n{key_points}\n\n{url}"\<close>.\<close>

definition format_message :: "string \<Rightarrow> string \<Rightarrow> string \<Rightarrow> string" where
  "format_message title_en key_points u =
     ''**'' @ title_en @ ''**'' @ [CHR 0x0A, CHR 0x0A] @ key_points @ [CHR 0x0A, CHR 0x0A] @ u"

text \<open>
  The body of the loop \<open>for entry in feed.entries[:3]\<close>, for one entry. The result is the
  exception that leaves the loop, if any, and the state reached; \<open>(None, st)\<close> with the
  state unchanged is the \<open>continue\<close>. The \<open>print\<close> before the calls of \<open>query_llm\<close> reads
  \<open>entry.title\<close>, so an entry without a title raises there at the latest.
\<close>

definition process_entry :: "world \<Rightarrow> string \<Rightarrow> nat \<Rightarrow> entry \<Rightarrow> bot \<Rightarrow> exn option \<times> bot" where
  "process_entry w country channel e st =
     (case link e of
        None \<Rightarrow> (Some (AttributeError ''link''), st)
      | Some u \<Rightarrow>
          if is_posted u (db st) then (None, st)
          else
            (case extract_text e of
               Inl x \<Rightarrow> (Some x, st)
             | Inr raw_text \<Rightarrow>
                 (case title e of
                    None \<Rightarrow> (Some (AttributeError ''title''), st)
                  | Some t \<Rightarrow>
                      (case query_llm w raw_text ''summary'' st of
                         (Inl x, st1) \<Rightarrow> (Some x, st1)
                       | (Inr key_points, st1) \<Rightarrow>
                           (case query_llm w t ''title'' st1 of
                              (Inl x, st2) \<Rightarrow> (Some x, st2)
                            | (Inr title_en, st2) \<Rightarrow>
                                (let message = format_message title_en key_points u in
                                 case fanout w country channel message st2 of
                                   (Some x, st3) \<Rightarrow> (Some x, st3)
                                 | (None, st3) \<Rightarrow>
                                     (case add_article u key_points (db st3) of
                                        Inl x \<Rightarrow> (Some x, st3)
                                      | Inr t' \<Rightarrow>
                                          (None, await (Sleep 3) (st3\<lparr>db := t'\<rparr>)))))))))"

text \<open>The loop over the entries: an exception ends it.\<close>

fun process_entries :: "world \<Rightarrow> string \<Rightarrow> nat \<Rightarrow> entry list \<Rightarrow> bot \<Rightarrow> exn option \<times> bot" where
  "process_entries w country channel [] st = (None, st)"
| "process_entries w country channel (e # es) st =
     (case process_entry w country channel e st of
        (Some x, st') \<Rightarrow> (Some x, st')
      | (None, st') \<Rightarrow> process_entries w country channel es st')"

text \<open>
  The \<open>try\<close> block of \<open>process_rss\<close>: the exception it ends with, if any, and the state
  reached. A missing or zero \<open>channel_id\<close>, a channel that \<open>get_channel\<close> does not find
  and a feed without entries are plain returns.
\<close>

definition process_rss_try :: "world \<Rightarrow> string \<Rightarrow> config \<Rightarrow> bot \<Rightarrow> exn option \<times> bot" where
  "process_rss_try w country cfg st =
     (case channel_id cfg of
        None \<Rightarrow> (None, st)
      | Some channel \<Rightarrow>
          if channel = 0 then (None, st)
          else if \<not> channels w (clock st) channel then (None, st)
          else
            (case rss_url cfg of
               None \<Rightarrow> (Some (KeyError ''rss_url''), st)
             | Some u \<Rightarrow>
                 (case get_feed w u st of
                    (ParseRaises x, st1) \<Rightarrow> (Some x, st1)
                  | (Feed entries, st1) \<Rightarrow>
                      if entries = [] then (None, st1)
                      else process_entries w country channel (take 3 entries) st1)))"

text \<open>
  \<open>process_rss\<close>: the \<open>try\<close> block under \<open>except Exception\<close>, which prints the exception
  and returns. What was done before the exception stays done.
\<close>

definition process_rss :: "world \<Rightarrow> string \<Rightarrow> config \<Rightarrow> bot \<Rightarrow> bot" where
  "process_rss w country cfg st = snd (process_rss_try w country cfg st)"

text \<open>One run of \<open>news_loop\<close>, a poll cycle, over a table of sources.\<close>

fun news_loop :: "world \<Rightarrow> (string \<times> config) list \<Rightarrow> bot \<Rightarrow> bot" where
  "news_loop w [] st = st"
| "news_loop w ((country, cfg) # sources) st =
     news_loop w sources (process_rss w country cfg st)"

subsection \<open>States of the table\<close>

text \<open>
  The tables that \<open>DatabaseManager\<close> can produce: the one \<open>create_table\<close> makes in a
  fresh database file, and from there any number of calls of \<open>add_article\<close> and of
  re-openings of the file.
\<close>

inductive reachable :: "posted_articles \<Rightarrow> bool" where
  fresh: "reachable (create_table None)"
| reopen: "reachable t \<Longrightarrow> reachable (create_table (Some t))"
| added: "reachable t \<Longrightarrow> add_article u s t = Inr t' \<Longrightarrow> reachable t'"

subsection \<open>Counting the calls of the language model\<close>

fun is_Generate :: "event \<Rightarrow> bool" where
  "is_Generate (Generate p) = True"
| "is_Generate (Fetch u) = False"
| "is_Generate (Send c m) = False"
| "is_Generate (Sleep n) = False"

definition generate_calls :: "event list \<Rightarrow> nat" where
  "generate_calls evs = length (filter is_Generate evs)"

subsection \<open>Failed enrichment\<close>

text \<open>
  The outcomes of the POST that count as a failure of the enrichment: a status other than
  200, or an exception.
\<close>

definition failed_reply :: "llm_reply \<Rightarrow> bool" where
  "failed_reply r = (case r of Response status body \<Rightarrow> status \<noteq> 200 | PostRaises e \<Rightarrow> True)"

subsection \<open>Scenarios\<close>

text \<open>
  Concrete worlds on which the theorems below are evaluated: one source \<open>X\<close> with channel
  7 whose feed \<open>F\<close> returns one entry, a language model that answers \<open>S1\<close> to the summary
  prompt and \<open>H1\<close> to the headline prompt, and a Discord that accepts every message.
  The variants change one collaborator each.
\<close>

definition st0 :: bot where
  "st0 = \<lparr>db = [], clock = 0, trace = []\<rparr>"

definition item1 :: entry where
  "item1 = \<lparr>link = Some ''u1'', title = Some ''T'', description = Some ''d1'', summary = None\<rparr>"

definition source_X :: "string \<times> config" where
  "source_X = (''X'', \<lparr>channel_id = Some 7, rss_url = Some ''F''\<rparr>)"

definition world_ok :: world where
  "world_ok =
     \<lparr>channels = (\<lambda>t c. True),
      feedparser_parse = (\<lambda>t u a. Feed [item1]),
      ollama = (\<lambda>t p. Response 200 (Some (if take 4 p = ''Read'' then ''S1'' else ''H1''))),
      discord_send = (\<lambda>t c m. None)\<rparr>"

text \<open>The language model answers every request with status 500.\<close>

definition world_llm_down :: world where
  "world_llm_down = world_ok\<lparr>ollama := (\<lambda>t p. Response 500 None)\<rparr>"

text \<open>The language model cannot be reached: the POST raises.\<close>

definition world_llm_unreachable :: world where
  "world_llm_unreachable = world_ok\<lparr>ollama := (\<lambda>t p. PostRaises ''Cannot connect to host'')\<rparr>"

text \<open>Every \<open>channel.send\<close> raises.\<close>

definition world_discord_down :: world where
  "world_discord_down = world_ok\<lparr>discord_send := (\<lambda>t c m. Some (RuntimeError ''HTTPException''))\<rparr>"

text \<open>The title and the description of the entry carry tags.\<close>

definition item_tagged :: entry where
  "item_tagged =
     \<lparr>link = Some ''u1'', title = Some ''<b>T</b>'', description = Some ''<p>d1</p>'', summary = None\<rparr>"

definition world_tagged :: world where
  "world_tagged = world_ok\<lparr>feedparser_parse := (\<lambda>t u a. Feed [item_tagged])\<rparr>"

text \<open>A second source \<open>A\<close>, ahead of \<open>X\<close>, whose feed cannot be fetched.\<close>

definition source_A :: "string \<times> config" where
  "source_A = (''A'', \<lparr>channel_id = Some 5, rss_url = Some ''FA''\<rparr>)"

definition world_A_down :: world where
  "world_A_down =
     world_ok\<lparr>feedparser_parse :=
       (\<lambda>t u a. if u = ''FA'' then ParseRaises (RuntimeError ''fetch'') else Feed [item1])\<rparr>"

text \<open>A feed of ten entries \<open>u0\<close> to \<open>u9\<close>.\<close>

definition item :: "string \<Rightarrow> entry" where
  "item u = \<lparr>link = Some u, title = Some ''T'', description = Some ''d'', summary = None\<rparr>"

definition ten_items :: "entry list" where
  "ten_items =
     map item [''u0'', ''u1'', ''u2'', ''u3'', ''u4'', ''u5'', ''u6'', ''u7'', ''u8'', ''u9'']"

definition world_ten :: world where
  "world_ten = world_ok\<lparr>feedparser_parse := (\<lambda>t u a. Feed ten_items)\<rparr>"

text \<open>The feed of ten entries with a Discord that rejects every message.\<close>

definition world_ten_discord_down :: world where
  "world_ten_discord_down =
     world_ten\<lparr>discord_send := (\<lambda>t c m. Some (RuntimeError ''HTTPException''))\<rparr>"

text \<open>A state in which \<open>u0\<close> is posted already.\<close>

definition st_u0 :: bot where
  "st_u0 = \<lparr>db = [(''u0'', ''S0'')], clock = 0, trace = []\<rparr>"

section \<open>Properties\<close>

subsection \<open>The table\<close>

lemma is_posted_iff: "is_posted u t \<longleftrightarrow> u \<in> fst ` set t"
  by (auto simp: is_posted_def list_ex_iff)

lemma add_article_eq: "add_article u s t = Inr (if is_posted u t then t else t @ [(u, s)])"
  by (simp add: add_article_def sql_insert_def is_posted_def)

lemma reachable_distinct: "reachable t \<Longrightarrow> distinct (map fst t)"
proof (induction rule: reachable.induct)
  case fresh
  show ?case by (simp add: create_table_def)
next
  case (reopen t)
  then show ?case by (simp add: create_table_def)
next
  case (added t u s t')
  then show ?case
    by (auto simp: add_article_eq is_posted_iff split: if_splits)
qed

lemma count_one:
  "distinct (map fst t) \<Longrightarrow> u \<in> fst ` set t \<Longrightarrow> length (filter (\<lambda>r. fst r = u) t) = 1"
proof (induction t)
  case Nil
  then show ?case by simp
next
  case (Cons r t)
  show ?case
  proof (cases "fst r = u")
    case True
    from Cons.prems(1) have "fst r \<notin> fst ` set t" by simp
    with True have "filter (\<lambda>r. fst r = u) t = []"
      by (fastforce simp: filter_empty_conv image_iff)
    with True show ?thesis by simp
  next
    case False
    with Cons show ?thesis by auto
  qed
qed

text \<open>
  C4. In every table that \<open>DatabaseManager\<close> can produce no two rows have the same
  \<open>url\<close>, and calling \<open>add_article\<close> twice with the same \<open>url\<close> and \<open>summary\<close> raises
  nothing either time: the second call returns the table of the first unchanged, which
  holds exactly one row for that \<open>url\<close>.
\<close>

theorem add_article_idempotent:
  assumes "reachable t"
  shows "distinct (map fst t) \<and>
         (\<exists>t1. add_article u s t = Inr t1 \<and> add_article u s t1 = Inr t1
               \<and> length (filter (\<lambda>r. fst r = u) t1) = 1 \<and> distinct (map fst t1))"
proof -
  let ?t1 = "if is_posted u t then t else t @ [(u, s)]"
  have d: "distinct (map fst t)" using assms by (rule reachable_distinct)
  have a1: "add_article u s t = Inr ?t1" by (rule add_article_eq)
  have p: "is_posted u ?t1" by (simp add: is_posted_iff)
  have a2: "add_article u s ?t1 = Inr ?t1" using p by (simp add: add_article_eq)
  have d1: "distinct (map fst ?t1)" using d by (simp add: is_posted_iff)
  have c: "length (filter (\<lambda>r. fst r = u) ?t1) = 1"
    using d1 p by (intro count_one) (simp_all only: is_posted_iff)
  from d a1 a2 c d1 show ?thesis by blast
qed

theorem add_article_idempotent_witness:
  "reachable [] \<and> distinct (map fst ([] :: posted_articles)) \<and>
   add_article ''u1'' ''S1'' [] = Inr [(''u1'', ''S1'')] \<and>
   add_article ''u1'' ''S1'' [(''u1'', ''S1'')] = Inr [(''u1'', ''S1'')] \<and>
   length (filter (\<lambda>r. fst r = ''u1'') [(''u1'', ''S1'')]) = 1"
proof -
  have r: "reachable []" using reachable.fresh by (simp add: create_table_def)
  show ?thesis
    using r add_article_idempotent [OF r, of "''u1''" "''S1''"]
    by (simp add: add_article_def sql_insert_def)
qed

subsection \<open>One entry\<close>

lemma await_simps [simp]:
  "db (await ev st) = db st"
  "clock (await ev st) = Suc (clock st)"
  "trace (await ev st) = trace st @ [ev]"
  by (simp_all add: await_def)

lemma query_llm_summary:
  "query_llm w x ''summary'' st =
     (Inr (llm_result (ollama w (clock st) (summary_instruction @ x))),
      await (Generate (summary_instruction @ x)) st)"
  by (simp add: query_llm_def Let_def)

lemma query_llm_title:
  "query_llm w x ''title'' st =
     (Inr (llm_result (ollama w (clock st) (title_instruction @ x))),
      await (Generate (title_instruction @ x)) st)"
  by (simp add: query_llm_def Let_def)

lemma fanout_db: "db (snd (fanout w c ch m st)) = db st"
  by (simp add: fanout_def send_def split: option.splits)

lemma fanout_db': "fanout w c ch m st = (r, st') \<Longrightarrow> db st' = db st"
  using fanout_db [of w c ch m st] by simp

lemma process_entry_fresh:
  assumes "link e = Some u" "\<not> is_posted u (db st)" "extract_text e = Inr raw" "title e = Some t"
  shows "process_entry w c ch e st =
     (case fanout w c ch
             (format_message (llm_result (ollama w (Suc (clock st)) (title_instruction @ t)))
                (llm_result (ollama w (clock st) (summary_instruction @ raw))) u)
             (await (Generate (title_instruction @ t))
                (await (Generate (summary_instruction @ raw)) st)) of
        (Some x, st3) \<Rightarrow> (Some x, st3)
      | (None, st3) \<Rightarrow>
          (None, await (Sleep 3)
                   (st3\<lparr>db := db st @ [(u, llm_result (ollama w (clock st) (summary_instruction @ raw)))]\<rparr>)))"
  using assms
  by (auto simp: process_entry_def query_llm_summary query_llm_title add_article_eq
      dest: fanout_db' split: prod.splits option.splits)

lemma process_entry_posted:
  "link e = Some u \<Longrightarrow> is_posted u (db st) \<Longrightarrow> process_entry w c ch e st = (None, st)"
  by (simp add: process_entry_def)

lemma process_entry_raise_db:
  "process_entry w c ch e st = (Some x, st') \<Longrightarrow> db st' = db st"
  by (auto simp: process_entry_def query_llm_summary query_llm_title add_article_eq Let_def
      dest: fanout_db' split: prod.splits option.splits sum.splits if_splits)

lemma process_entry_done_posted:
  "process_entry w c ch e st = (None, st') \<Longrightarrow> link e = Some u \<Longrightarrow> is_posted u (db st')"
  by (auto simp: process_entry_def query_llm_summary query_llm_title add_article_eq Let_def is_posted_iff
      dest: fanout_db' split: prod.splits option.splits sum.splits if_splits)

lemma process_entry_db_grows:
  "set (db st) \<subseteq> set (db (snd (process_entry w c ch e st)))"
  by (auto simp: process_entry_def query_llm_summary query_llm_title add_article_eq Let_def
      dest: fanout_db' split: prod.splits option.splits sum.splits if_splits)

lemma process_entry_db_length:
  "length (db (snd (process_entry w c ch e st))) \<le> Suc (length (db st))"
  by (auto simp: process_entry_def query_llm_summary query_llm_title add_article_eq Let_def
      dest: fanout_db' split: prod.splits option.splits sum.splits if_splits)


lemma process_entries_db_grows:
  "set (db st) \<subseteq> set (db (snd (process_entries w c ch es st)))"
proof (induction es arbitrary: st)
  case Nil
  show ?case by simp
next
  case (Cons e es)
  obtain r st1 where p: "process_entry w c ch e st = (r, st1)" by (cases "process_entry w c ch e st")
  have g: "set (db st) \<subseteq> set (db st1)" using process_entry_db_grows [of st w c ch e] p by simp
  show ?case
  proof (cases r)
    case None
    with p g Cons.IH [of st1] show ?thesis by auto
  next
    case (Some x)
    with p g show ?thesis by simp
  qed
qed

lemma process_entries_db_length:
  "length (db (snd (process_entries w c ch es st))) \<le> length (db st) + length es"
proof (induction es arbitrary: st)
  case Nil
  show ?case by simp
next
  case (Cons e es)
  obtain r st1 where p: "process_entry w c ch e st = (r, st1)" by (cases "process_entry w c ch e st")
  have g: "length (db st1) \<le> Suc (length (db st))" using process_entry_db_length [of w c ch e st] p by simp
  show ?case
  proof (cases r)
    case None
    with p g Cons.IH [of st1] show ?thesis by auto
  next
    case (Some x)
    with p g show ?thesis by simp
  qed
qed

lemma get_feed_db: "get_feed w u st = (r, st1) \<Longrightarrow> db st1 = db st"
  by (auto simp: get_feed_def)

lemma process_rss_db_grows: "set (db st) \<subseteq> set (db (process_rss w c cfg st))"
  by (auto simp: process_rss_def process_rss_try_def get_feed_def
      intro!: subsetD [OF process_entries_db_grows]
      split: option.splits feed_reply.splits prod.splits)

lemma news_loop_db_grows: "set (db st) \<subseteq> set (db (news_loop w srcs st))"
proof (induction srcs arbitrary: st)
  case Nil
  show ?case by simp
next
  case (Cons src srcs)
  obtain c cfg where s: "src = (c, cfg)" by (cases src)
  from process_rss_db_grows [of st w c cfg] Cons.IH [of "process_rss w c cfg st"] s
  show ?case by auto
qed

lemma news_loop_append: "news_loop w (xs @ ys) st = news_loop w ys (news_loop w xs st)"
  by (induction xs arbitrary: st) auto

lemma posted_superset: "is_posted u t \<Longrightarrow> set t \<subseteq> set t' \<Longrightarrow> is_posted u t'"
  by (auto simp: is_posted_iff)

lemma fanout_first_send: "Send ch m \<in> set (trace (snd (fanout w c ch m st)))"
  by (auto simp: fanout_def send_def split: option.splits)

lemma process_entry_fresh_flow:
  assumes "link e = Some u" "\<not> is_posted u (db st)" "extract_text e = Inr raw" "title e = Some t"
  shows "Send ch (format_message (llm_result (ollama w (Suc (clock st)) (title_instruction @ t)))
                   (llm_result (ollama w (clock st) (summary_instruction @ raw))) u)
           \<in> set (trace (snd (process_entry w c ch e st)))
       \<and> (fst (process_entry w c ch e st) = None \<longrightarrow>
            db (snd (process_entry w c ch e st))
              = db st @ [(u, llm_result (ollama w (clock st) (summary_instruction @ raw)))])"
proof -
  let ?kp = "llm_result (ollama w (clock st) (summary_instruction @ raw))"
  let ?ten = "llm_result (ollama w (Suc (clock st)) (title_instruction @ t))"
  let ?st2 = "await (Generate (title_instruction @ t)) (await (Generate (summary_instruction @ raw)) st)"
  obtain r st3 where f: "fanout w c ch (format_message ?ten ?kp u) ?st2 = (r, st3)"
    by (cases "fanout w c ch (format_message ?ten ?kp u) ?st2")
  have s: "Send ch (format_message ?ten ?kp u) \<in> set (trace st3)"
    using fanout_first_send [of ch "format_message ?ten ?kp u" w c ?st2] f by simp
  note pe = process_entry_fresh [OF assms, of w c ch]
  show ?thesis using f s pe by (cases r) simp_all
qed

text \<open>Unfolding everything, to run the bot on a concrete world.\<close>

lemmas bot_defs =
  process_rss_def process_rss_try_def get_feed_def await_def process_entry_def is_posted_def
  extract_text_def truthy_def query_llm_def llm_result_def fanout_def send_def add_article_def
  sql_insert_def format_message_def strip_def isspace_def Let_def GLOBAL_CHANNEL_ID_def
  summary_instruction_def title_instruction_def

lemmas scenario_defs =
  st0_def item1_def source_X_def world_ok_def world_llm_down_def world_discord_down_def
  item_tagged_def world_tagged_def source_A_def world_A_down_def item_def ten_items_def
  world_ten_def world_llm_unreachable_def world_ten_discord_down_def st_u0_def

lemma str_nat_500: "str_nat 500 = ''500''"
  by code_simp

subsection \<open>\<open>query_llm\<close>\<close>

text \<open>
  C7. Called with a mode that \<open>process_rss\<close> passes, \<open>summary\<close> or \<open>title\<close>,
  \<open>query_llm\<close> returns a string for every text, whatever the POST does: a status other
  than 200 gives the string \<open>Error:\<close> with the status, an exception gives \<open>LLM Error:\<close>
  with its text. In \<open>process_rss\<close> the strings that the two calls return, these error
  texts included, are the ones put into the message that is sent, and the string of the
  summary call is the summary stored with the row.
\<close>

theorem query_llm_returns_string:
  assumes "mode = ''summary'' \<or> mode = ''title''"
  shows "(\<exists>s. fst (query_llm w text mode st) = Inr s)
       \<and> (\<forall>status body.
            ollama w (clock st)
              ((if mode = ''summary'' then summary_instruction else title_instruction) @ text)
              = Response status body \<longrightarrow> status \<noteq> 200 \<longrightarrow>
            fst (query_llm w text mode st) = Inr (''Error: '' @ str_nat status))
       \<and> (\<forall>x.
            ollama w (clock st)
              ((if mode = ''summary'' then summary_instruction else title_instruction) @ text)
              = PostRaises x \<longrightarrow>
            fst (query_llm w text mode st) = Inr (''LLM Error: '' @ x))
       \<and> (link e = Some u \<longrightarrow> \<not> is_posted u (db st) \<longrightarrow>
          extract_text e = Inr raw \<longrightarrow> title e = Some t \<longrightarrow>
            (\<exists>key_points title_en.
               fst (query_llm w raw ''summary'' st) = Inr key_points
             \<and> fst (query_llm w t ''title'' (snd (query_llm w raw ''summary'' st))) = Inr title_en
             \<and> Send ch (format_message title_en key_points u)
                 \<in> set (trace (snd (process_entry w c ch e st)))
             \<and> (fst (process_entry w c ch e st) = None \<longrightarrow>
                  db (snd (process_entry w c ch e st)) = db st @ [(u, key_points)])))"
proof -
  have a: "(\<exists>s. fst (query_llm w text mode st) = Inr s)
       \<and> (\<forall>status body.
            ollama w (clock st)
              ((if mode = ''summary'' then summary_instruction else title_instruction) @ text)
              = Response status body \<longrightarrow> status \<noteq> 200 \<longrightarrow>
            fst (query_llm w text mode st) = Inr (''Error: '' @ str_nat status))
       \<and> (\<forall>x.
            ollama w (clock st)
              ((if mode = ''summary'' then summary_instruction else title_instruction) @ text)
              = PostRaises x \<longrightarrow>
            fst (query_llm w text mode st) = Inr (''LLM Error: '' @ x))"
    using assms by (auto simp: query_llm_summary query_llm_title llm_result_def)
  have b: "\<exists>key_points title_en.
               fst (query_llm w raw ''summary'' st) = Inr key_points
             \<and> fst (query_llm w t ''title'' (snd (query_llm w raw ''summary'' st))) = Inr title_en
             \<and> Send ch (format_message title_en key_points u)
                 \<in> set (trace (snd (process_entry w c ch e st)))
             \<and> (fst (process_entry w c ch e st) = None \<longrightarrow>
                  db (snd (process_entry w c ch e st)) = db st @ [(u, key_points)])"
    if "link e = Some u" "\<not> is_posted u (db st)" "extract_text e = Inr raw" "title e = Some t"
    using process_entry_fresh_flow [OF that, of ch w c]
    by (simp add: query_llm_summary query_llm_title)
  from a b show ?thesis by blast
qed

theorem query_llm_returns_string_witness:
  "(''summary'' = ''summary'' \<or> ''summary'' = ''title'')
   \<and> ollama world_llm_down (clock st0) (summary_instruction @ ''d1'') = Response 500 None
   \<and> fst (query_llm world_llm_down ''d1'' ''summary'' st0) = Inr ''Error: 500''
   \<and> ollama world_llm_unreachable (clock st0) (title_instruction @ ''T'')
       = PostRaises ''Cannot connect to host''
   \<and> fst (query_llm world_llm_unreachable ''T'' ''title'' st0)
       = Inr ''LLM Error: Cannot connect to host''
   \<and> link item1 = Some ''u1'' \<and> \<not> is_posted ''u1'' (db st0)
   \<and> extract_text item1 = Inr ''d1'' \<and> title item1 = Some ''T''
   \<and> process_entry world_llm_down ''X'' 7 item1 st0
       = (None, \<lparr>db = [(''u1'', ''Error: 500'')], clock = 5,
                 trace = [Generate (summary_instruction @ ''d1''), Generate (title_instruction @ ''T''),
                          Send 7 (format_message ''Error: 500'' ''Error: 500'' ''u1''),
                          Send GLOBAL_CHANNEL_ID (''[X] '' @ format_message ''Error: 500'' ''Error: 500'' ''u1''),
                          Sleep 3]\<rparr>)"
proof -
  have m: "''summary'' = ''summary'' \<or> ''summary'' = ''title''"
    and m': "''title'' = ''summary'' \<or> ''title'' = ''title''" by simp_all
  have o: "ollama world_llm_down (clock st0) (summary_instruction @ ''d1'') = Response 500 None"
    and o': "ollama world_llm_unreachable (clock st0) (title_instruction @ ''T'')
       = PostRaises ''Cannot connect to host''"
    by (simp_all add: scenario_defs)
  have h: "link item1 = Some ''u1''" "\<not> is_posted ''u1'' (db st0)"
    "extract_text item1 = Inr ''d1''" "title item1 = Some ''T''"
    by (simp_all add: bot_defs scenario_defs)
  have p: "process_entry world_llm_down ''X'' 7 item1 st0
       = (None, \<lparr>db = [(''u1'', ''Error: 500'')], clock = 5,
                 trace = [Generate (summary_instruction @ ''d1''), Generate (title_instruction @ ''T''),
                          Send 7 (format_message ''Error: 500'' ''Error: 500'' ''u1''),
                          Send GLOBAL_CHANNEL_ID (''[X] '' @ format_message ''Error: 500'' ''Error: 500'' ''u1''),
                          Sleep 3]\<rparr>)"
    by (simp add: bot_defs scenario_defs str_nat_500)
  from query_llm_returns_string [OF m, of world_llm_down "''d1''" st0 item1 "''u1''" "''d1''" "''T''" 7 "''X''"] o
  have q: "fst (query_llm world_llm_down ''d1'' ''summary'' st0) = Inr (''Error: '' @ str_nat 500)"
    by simp
  from query_llm_returns_string [OF m', of world_llm_unreachable "''T''" st0 item1 "''u1''" "''d1''" "''T''" 7 "''X''"] o'
  have q': "fst (query_llm world_llm_unreachable ''T'' ''title'' st0)
       = Inr (''LLM Error: '' @ ''Cannot connect to host'')"
    by simp
  from o o' q q' h p show ?thesis by (simp add: str_nat_500)
qed

subsection \<open>The two sends\<close>

text \<open>
  C6 (as amended). The message is always sent to the channel of the source first. The send
  to the shared channel is attempted exactly when the first send raised nothing and
  \<open>get_channel\<close> finds the shared channel: an exception of the first send leaves out the
  second.
\<close>

theorem fanout_attempts:
  "trace (snd (fanout w c ch m st)) =
     trace st @ [Send ch m] @
       (if discord_send w (clock st) ch m = None \<and> channels w (Suc (clock st)) GLOBAL_CHANNEL_ID
        then [Send GLOBAL_CHANNEL_ID (''['' @ c @ ''] '' @ m)] else [])"
  by (auto simp: fanout_def send_def split: option.splits)

theorem fanout_attempts_witness:
  "trace (snd (fanout world_ok ''X'' 7 ''m'' st0))
     = [Send 7 ''m'', Send GLOBAL_CHANNEL_ID ''[X] m'']"
  using fanout_attempts [of world_ok "''X''" 7 "''m''" st0]
  by (simp add: scenario_defs)

text \<open>When Discord rejects the first message, nothing is sent to the shared channel.\<close>

theorem fanout_blocked:
  "fanout world_discord_down ''X'' 7 ''m'' st0
     = (Some (RuntimeError ''HTTPException''), \<lparr>db = [], clock = 1, trace = [Send 7 ''m'']\<rparr>)"
  by (simp add: fanout_def send_def await_def scenario_defs)

subsection \<open>Deduplication\<close>

text \<open>
  C3 (as amended). Once the processing of an entry has run to its end without an exception,
  the entry is skipped in every later state whose table holds the rows of that moment:
  \<open>process_entry\<close> returns the state as it is, with no call of the language model, no
  send and no new row. A poll cycle only adds rows, so every state of a later cycle is such
  a state.
\<close>

theorem processed_item_skipped:
  assumes "link e = Some u" and "process_entry w c ch e st = (None, st1)"
  shows "(\<forall>st2. set (db st1) \<subseteq> set (db st2) \<longrightarrow> process_entry w' c' ch' e st2 = (None, st2))
       \<and> set (db st1) \<subseteq> set (db (news_loop w srcs st1))"
proof -
  have p: "is_posted u (db st1)" using assms(2,1) by (rule process_entry_done_posted)
  show ?thesis
    using p assms(1) news_loop_db_grows
    by (auto intro!: process_entry_posted elim: posted_superset)
qed

theorem processed_item_skipped_witness:
  "link item1 = Some ''u1''
   \<and> process_entry world_ok ''X'' 7 item1 (await (Fetch ''F'') st0)
       = (None, \<lparr>db = [(''u1'', ''S1'')], clock = 6,
                 trace = [Fetch ''F'', Generate (summary_instruction @ ''d1''),
                          Generate (title_instruction @ ''T''),
                          Send 7 (format_message ''H1'' ''S1'' ''u1''),
                          Send GLOBAL_CHANNEL_ID (''[X] '' @ format_message ''H1'' ''S1'' ''u1''),
                          Sleep 3]\<rparr>)
   \<and> news_loop world_ok [source_X] (news_loop world_ok [source_X] st0)
       = \<lparr>db = [(''u1'', ''S1'')], clock = 7,
          trace = [Fetch ''F'', Generate (summary_instruction @ ''d1''),
                   Generate (title_instruction @ ''T''),
                   Send 7 (format_message ''H1'' ''S1'' ''u1''),
                   Send GLOBAL_CHANNEL_ID (''[X] '' @ format_message ''H1'' ''S1'' ''u1''),
                   Sleep 3, Fetch ''F'']\<rparr>"
  using processed_item_skipped [of item1 "''u1''" world_ok "''X''" 7 "await (Fetch ''F'') st0"
      "snd (process_entry world_ok ''X'' 7 item1 (await (Fetch ''F'') st0))" world_ok "''X''" 7 "[source_X]"]
  by (simp add: bot_defs scenario_defs)

text \<open>
  When every send raises, nothing is recorded, and a second cycle over the same feed asks
  the language model and Discord again for the same entry.
\<close>

theorem delivery_failure_enriched_twice:
  "trace (news_loop world_discord_down [source_X] (news_loop world_discord_down [source_X] st0))
     = [Fetch ''F'', Generate (summary_instruction @ ''d1''), Generate (title_instruction @ ''T''),
        Send 7 (format_message ''H1'' ''S1'' ''u1''),
        Fetch ''F'', Generate (summary_instruction @ ''d1''), Generate (title_instruction @ ''T''),
        Send 7 (format_message ''H1'' ''S1'' ''u1'')]"
  by (simp add: bot_defs scenario_defs)

subsection \<open>Failure of the language model\<close>

text \<open>
  C1 (as amended). When the language model fails on the summary call or on the headline
  call of an entry that is not yet posted, \<open>process_entry\<close> does not abandon the entry: the
  strings that \<open>query_llm\<close> returned, error texts included, are put into the message, the
  message is sent to the channel of the source, and if no send raises the entry is recorded
  with the string of the summary call as its summary. From then on the entry is skipped, so
  the language model is not asked again for it.
\<close>

theorem failed_enrichment_recorded:
  assumes "link e = Some u" and "\<not> is_posted u (db st)"
    and "extract_text e = Inr raw" and "title e = Some t"
    and "failed_reply (ollama w (clock st) (summary_instruction @ raw))
         \<or> failed_reply (ollama w (Suc (clock st)) (title_instruction @ t))"
  shows "Send ch (format_message (llm_result (ollama w (Suc (clock st)) (title_instruction @ t)))
                   (llm_result (ollama w (clock st) (summary_instruction @ raw))) u)
           \<in> set (trace (snd (process_entry w c ch e st)))
       \<and> (fst (process_entry w c ch e st) = None \<longrightarrow>
            db (snd (process_entry w c ch e st))
              = db st @ [(u, llm_result (ollama w (clock st) (summary_instruction @ raw)))]
            \<and> (\<forall>st2. set (db (snd (process_entry w c ch e st))) \<subseteq> set (db st2)
                  \<longrightarrow> process_entry w' c' ch' e st2 = (None, st2)))"
proof -
  let ?kp = "llm_result (ollama w (clock st) (summary_instruction @ raw))"
  let ?ten = "llm_result (ollama w (Suc (clock st)) (title_instruction @ t))"
  let ?st2 = "await (Generate (title_instruction @ t)) (await (Generate (summary_instruction @ raw)) st)"
  obtain r st3 where f: "fanout w c ch (format_message ?ten ?kp u) ?st2 = (r, st3)"
    by (cases "fanout w c ch (format_message ?ten ?kp u) ?st2")
  have s: "Send ch (format_message ?ten ?kp u) \<in> set (trace st3)"
    using fanout_first_send [of ch "format_message ?ten ?kp u" w c ?st2] f by simp
  have d: "db st3 = db st" using fanout_db' [OF f] by simp
  note pe = process_entry_fresh [OF assms(1-4), of w c ch]
  show ?thesis
  proof (cases r)
    case (Some x)
    with f s pe show ?thesis by simp
  next
    case None
    with f pe have eq: "process_entry w c ch e st = (None, await (Sleep 3) (st3\<lparr>db := db st @ [(u, ?kp)]\<rparr>))"
      by simp
    have "\<forall>st2. set (db (snd (process_entry w c ch e st))) \<subseteq> set (db st2)
                  \<longrightarrow> process_entry w' c' ch' e st2 = (None, st2)"
    proof (intro allI impI)
      fix st2 :: bot
      assume sub: "set (db (snd (process_entry w c ch e st))) \<subseteq> set (db st2)"
      have "is_posted u (db (snd (process_entry w c ch e st)))"
        using eq by (simp add: is_posted_iff)
      then have "is_posted u (db st2)" using sub by (rule posted_superset)
      with assms(1) show "process_entry w' c' ch' e st2 = (None, st2)"
        by (rule process_entry_posted)
    qed
    with eq s show ?thesis by simp
  qed
qed

theorem failed_enrichment_recorded_witness:
  "link item1 = Some ''u1'' \<and> \<not> is_posted ''u1'' (db st0)
   \<and> extract_text item1 = Inr ''d1'' \<and> title item1 = Some ''T''
   \<and> failed_reply (ollama world_llm_down (clock st0) (summary_instruction @ ''d1''))
   \<and> process_entry world_llm_down ''X'' 7 item1 st0
       = (None, \<lparr>db = [(''u1'', ''Error: 500'')], clock = 5,
                 trace = [Generate (summary_instruction @ ''d1''), Generate (title_instruction @ ''T''),
                          Send 7 (format_message ''Error: 500'' ''Error: 500'' ''u1''),
                          Send GLOBAL_CHANNEL_ID (''[X] '' @ format_message ''Error: 500'' ''Error: 500'' ''u1''),
                          Sleep 3]\<rparr>)"
proof -
  have h: "link item1 = Some ''u1''" "\<not> is_posted ''u1'' (db st0)"
    "extract_text item1 = Inr ''d1''" "title item1 = Some ''T''"
    "failed_reply (ollama world_llm_down (clock st0) (summary_instruction @ ''d1''))
     \<or> failed_reply (ollama world_llm_down (Suc (clock st0)) (title_instruction @ ''T''))"
    by (simp_all add: bot_defs scenario_defs failed_reply_def)
  have p: "process_entry world_llm_down ''X'' 7 item1 st0
       = (None, \<lparr>db = [(''u1'', ''Error: 500'')], clock = 5,
                 trace = [Generate (summary_instruction @ ''d1''), Generate (title_instruction @ ''T''),
                          Send 7 (format_message ''Error: 500'' ''Error: 500'' ''u1''),
                          Send GLOBAL_CHANNEL_ID (''[X] '' @ format_message ''Error: 500'' ''Error: 500'' ''u1''),
                          Sleep 3]\<rparr>)"
    by (simp add: bot_defs scenario_defs str_nat_500)
  have g: "failed_reply (ollama world_llm_down (clock st0) (summary_instruction @ ''d1''))"
    by (simp add: failed_reply_def scenario_defs)
  from failed_enrichment_recorded [OF h, of 7 "''X''" world_llm_down "''X''" 7]
  have "Send 7 (format_message (llm_result (ollama world_llm_down (Suc (clock st0)) (title_instruction @ ''T'')))
                   (llm_result (ollama world_llm_down (clock st0) (summary_instruction @ ''d1''))) ''u1'')
           \<in> set (trace (snd (process_entry world_llm_down ''X'' 7 item1 st0)))"
    by blast
  with h(1-4) g p show ?thesis by simp
qed

text \<open>
  With a language model that answers 500, the first cycle posts and records the entry with
  the summary \<open>Error: 500\<close>; the second cycle fetches the feed and does nothing else.
\<close>

theorem failed_enrichment_not_retried:
  "news_loop world_llm_down [source_X] st0
     = \<lparr>db = [(''u1'', ''Error: 500'')], clock = 6,
        trace = [Fetch ''F'', Generate (summary_instruction @ ''d1''), Generate (title_instruction @ ''T''),
                 Send 7 (format_message ''Error: 500'' ''Error: 500'' ''u1''),
                 Send GLOBAL_CHANNEL_ID (''[X] '' @ format_message ''Error: 500'' ''Error: 500'' ''u1''),
                 Sleep 3]\<rparr>
   \<and> news_loop world_llm_down [source_X] (news_loop world_llm_down [source_X] st0)
     = \<lparr>db = [(''u1'', ''Error: 500'')], clock = 7,
        trace = [Fetch ''F'', Generate (summary_instruction @ ''d1''), Generate (title_instruction @ ''T''),
                 Send 7 (format_message ''Error: 500'' ''Error: 500'' ''u1''),
                 Send GLOBAL_CHANNEL_ID (''[X] '' @ format_message ''Error: 500'' ''Error: 500'' ''u1''),
                 Sleep 3, Fetch ''F'']\<rparr>"
  by (simp add: bot_defs scenario_defs str_nat_500)

subsection \<open>Failure of a send\<close>




subsection \<open>Tags\<close>

lemma re_sub_tags_subset: "set (re_sub_tags s) \<subseteq> set s"
proof (induction s rule: re_sub_tags.induct)
  case 1
  show ?case by simp
next
  case (2 c cs)
  have "set (tl (dropWhile (\<lambda>x. x \<noteq> CHR ''>'') cs)) \<subseteq> set cs"
  proof
    fix x
    assume "x \<in> set (tl (dropWhile (\<lambda>x. x \<noteq> CHR ''>'') cs))"
    then have "x \<in> set (dropWhile (\<lambda>x. x \<noteq> CHR ''>'') cs)"
      by (cases "dropWhile (\<lambda>x. x \<noteq> CHR ''>'') cs") auto
    then show "x \<in> set cs" by (rule set_dropWhileD)
  qed
  with 2 show ?case by auto
qed

lemma has_tag_lt: "has_tag s \<Longrightarrow> CHR ''<'' \<in> set s"
  by (induction s) auto

lemma re_sub_tags_no_tag: "\<not> has_tag (re_sub_tags s)"
proof (induction s rule: re_sub_tags.induct)
  case 1
  show ?case by simp
next
  case (2 c cs)
  let ?P = "\<lambda>x. x \<noteq> CHR ''>''"
  show ?case
  proof (cases "c = CHR ''<'' \<and> takeWhile ?P cs \<noteq> [] \<and> dropWhile ?P cs \<noteq> []")
    case True
    with 2 show ?thesis by simp
  next
    case False
    with 2 have ih: "\<not> has_tag (re_sub_tags cs)" by simp
    have "takeWhile ?P (re_sub_tags cs) = [] \<or> dropWhile ?P (re_sub_tags cs) = []"
      if lt: "c = CHR ''<''"
    proof -
      from False lt consider "takeWhile ?P cs = []" | "dropWhile ?P cs = []" by blast
      then show ?thesis
      proof cases
        case 1
        then show ?thesis by (cases cs) (auto split: if_splits)
      next
        case 2
        then have "CHR ''>'' \<notin> set cs" by (auto simp: dropWhile_eq_Nil_conv)
        with re_sub_tags_subset [of cs] have "CHR ''>'' \<notin> set (re_sub_tags cs)" by blast
        then show ?thesis by (auto simp: dropWhile_eq_Nil_conv)
      qed
    qed
    with False ih show ?thesis by auto
  qed
qed

lemma extract_text_no_tag: "extract_text e = Inr raw \<Longrightarrow> \<not> has_tag raw"
  by (auto simp: extract_text_def re_sub_tags_no_tag dest: has_tag_lt
      split: sum.splits option.splits if_splits)

lemma process_entry_fresh_trace:
  assumes "link e = Some u" "\<not> is_posted u (db st)" "extract_text e = Inr raw" "title e = Some t"
  shows "\<exists>rest. trace (snd (process_entry w c ch e st)) =
           trace st @ [Generate (summary_instruction @ raw), Generate (title_instruction @ t),
             Send ch (format_message (llm_result (ollama w (Suc (clock st)) (title_instruction @ t)))
                (llm_result (ollama w (clock st) (summary_instruction @ raw))) u)] @ rest
         \<and> (rest = [] \<or> rest = [Sleep 3]
            \<or> rest = [Send GLOBAL_CHANNEL_ID (''['' @ c @ ''] '' @
                 format_message (llm_result (ollama w (Suc (clock st)) (title_instruction @ t)))
                   (llm_result (ollama w (clock st) (summary_instruction @ raw))) u)]
            \<or> rest = [Send GLOBAL_CHANNEL_ID (''['' @ c @ ''] '' @
                 format_message (llm_result (ollama w (Suc (clock st)) (title_instruction @ t)))
                   (llm_result (ollama w (clock st) (summary_instruction @ raw))) u), Sleep 3])"
  unfolding process_entry_fresh [OF assms]
  by (auto simp: fanout_def send_def split: option.splits)

text \<open>
  C9 (as amended). For an entry that is not yet posted, the text that reaches the language
  model in the summary call holds no match of \<open><[^>]+>\<close>: it is the text that
  \<open>extract_text\<close> returns. The headline call receives \<open>entry.title\<close> as the feed gave
  it, tags included.
\<close>

theorem summary_text_stripped:
  assumes "link e = Some u" and "\<not> is_posted u (db st)"
    and "extract_text e = Inr raw" and "title e = Some t"
  shows "\<not> has_tag raw
       \<and> take 2 (drop (length (trace st)) (trace (snd (process_entry w c ch e st))))
           = [Generate (summary_instruction @ raw), Generate (title_instruction @ t)]"
  using process_entry_fresh_trace [OF assms, of w c ch] extract_text_no_tag [OF assms(3)]
  by auto

theorem summary_text_stripped_witness:
  "link item_tagged = Some ''u1'' \<and> \<not> is_posted ''u1'' (db st0)
   \<and> extract_text item_tagged = Inr ''d1'' \<and> title item_tagged = Some ''<b>T</b>''
   \<and> \<not> has_tag ''d1''
   \<and> take 2 (drop (length (trace st0)) (trace (snd (process_entry world_tagged ''X'' 7 item_tagged st0))))
       = [Generate (summary_instruction @ ''d1''), Generate (title_instruction @ ''<b>T</b>'')]"
proof -
  have h: "link item_tagged = Some ''u1''" "\<not> is_posted ''u1'' (db st0)"
    "extract_text item_tagged = Inr ''d1''" "title item_tagged = Some ''<b>T</b>''"
    by (simp_all add: bot_defs scenario_defs)
  from summary_text_stripped [OF h, of world_tagged "''X''" 7] h show ?thesis by simp
qed

text \<open>A title with tags reaches the language model with its tags.\<close>

theorem title_sent_with_tags:
  "has_tag ''<b>T</b>''
   \<and> trace (news_loop world_tagged [source_X] st0)
     = [Fetch ''F'', Generate (summary_instruction @ ''d1''),
        Generate (title_instruction @ ''<b>T</b>''),
        Send 7 (format_message ''H1'' ''S1'' ''u1''),
        Send GLOBAL_CHANNEL_ID (''[X] '' @ format_message ''H1'' ''S1'' ''u1''),
        Sleep 3]"
  by (simp add: bot_defs scenario_defs)

subsection \<open>The message\<close>

text \<open>
  C10. For an entry that is not yet posted, with \<open>title_en\<close> and \<open>key_points\<close> the strings
  that the two calls of \<open>query_llm\<close> returned: the first send goes to the channel of the
  source with the message made of the headline (between the bold markers \<open>**\<close>), an empty
  line, the summary, an empty line and the URL; the only other send, if there is one, goes to
  the shared channel with the same message behind the country in brackets and a space.
\<close>

theorem message_template:
  assumes "link e = Some u" and "\<not> is_posted u (db st)"
    and "extract_text e = Inr raw" and "title e = Some t"
    and "query_llm w raw ''summary'' st = (Inr key_points, st1)"
    and "query_llm w t ''title'' st1 = (Inr title_en, st2)"
  shows "\<exists>rest. trace (snd (process_entry w c ch e st)) =
           trace st2 @
             Send ch (''**'' @ title_en @ ''**'' @ [CHR 0x0A, CHR 0x0A] @ key_points
                       @ [CHR 0x0A, CHR 0x0A] @ u) # rest
         \<and> (rest = [] \<or> rest = [Sleep 3]
            \<or> rest = [Send GLOBAL_CHANNEL_ID
                 (''['' @ c @ ''] '' @ ''**'' @ title_en @ ''**'' @ [CHR 0x0A, CHR 0x0A] @ key_points
                    @ [CHR 0x0A, CHR 0x0A] @ u)]
            \<or> rest = [Send GLOBAL_CHANNEL_ID
                 (''['' @ c @ ''] '' @ ''**'' @ title_en @ ''**'' @ [CHR 0x0A, CHR 0x0A] @ key_points
                    @ [CHR 0x0A, CHR 0x0A] @ u), Sleep 3])"
proof -
  from assms(5) have k: "key_points = llm_result (ollama w (clock st) (summary_instruction @ raw))"
    and s1: "st1 = await (Generate (summary_instruction @ raw)) st"
    by (simp_all add: query_llm_summary)
  from assms(6) s1 have h: "title_en = llm_result (ollama w (Suc (clock st)) (title_instruction @ t))"
    and s2: "st2 = await (Generate (title_instruction @ t)) (await (Generate (summary_instruction @ raw)) st)"
    by (simp_all add: query_llm_title)
  from process_entry_fresh_trace [OF assms(1-4), of w c ch, folded k h]
  show ?thesis by (auto simp: s2 format_message_def)
qed

theorem message_template_witness:
  "link item1 = Some ''u1'' \<and> \<not> is_posted ''u1'' (db st0)
   \<and> extract_text item1 = Inr ''d1'' \<and> title item1 = Some ''T''
   \<and> fst (query_llm world_ok ''d1'' ''summary'' st0) = Inr ''S1''
   \<and> fst (query_llm world_ok ''T'' ''title'' (await (Generate (summary_instruction @ ''d1'')) st0))
       = Inr ''H1''
   \<and> trace (snd (process_entry world_ok ''X'' 7 item1 st0))
       = [Generate (summary_instruction @ ''d1''), Generate (title_instruction @ ''T''),
          Send 7 (''**H1**'' @ [CHR 0x0A, CHR 0x0A] @ ''S1'' @ [CHR 0x0A, CHR 0x0A] @ ''u1''),
          Send GLOBAL_CHANNEL_ID
            (''[X] **H1**'' @ [CHR 0x0A, CHR 0x0A] @ ''S1'' @ [CHR 0x0A, CHR 0x0A] @ ''u1''),
          Sleep 3]"
proof -
  let ?st1 = "await (Generate (summary_instruction @ ''d1'')) st0"
  let ?st2 = "await (Generate (title_instruction @ ''T'')) ?st1"
  have h: "link item1 = Some ''u1''" "\<not> is_posted ''u1'' (db st0)"
    "extract_text item1 = Inr ''d1''" "title item1 = Some ''T''"
    by (simp_all add: bot_defs scenario_defs)
  have q1: "query_llm world_ok ''d1'' ''summary'' st0 = (Inr ''S1'', ?st1)"
    by (simp add: query_llm_summary llm_result_def strip_def isspace_def scenario_defs
        summary_instruction_def)
  have q2: "query_llm world_ok ''T'' ''title'' ?st1 = (Inr ''H1'', ?st2)"
    by (simp add: query_llm_title llm_result_def strip_def isspace_def scenario_defs
        title_instruction_def)
  have p: "trace (snd (process_entry world_ok ''X'' 7 item1 st0))
       = [Generate (summary_instruction @ ''d1''), Generate (title_instruction @ ''T''),
          Send 7 (''**H1**'' @ [CHR 0x0A, CHR 0x0A] @ ''S1'' @ [CHR 0x0A, CHR 0x0A] @ ''u1''),
          Send GLOBAL_CHANNEL_ID
            (''[X] **H1**'' @ [CHR 0x0A, CHR 0x0A] @ ''S1'' @ [CHR 0x0A, CHR 0x0A] @ ''u1''),
          Sleep 3]"
    by (simp add: bot_defs scenario_defs)
  from message_template [OF h q1 q2, of "''X''" 7]
  have "\<exists>rest. trace (snd (process_entry world_ok ''X'' 7 item1 st0)) =
          trace ?st2 @ Send 7 (''**'' @ ''H1'' @ ''**'' @ [CHR 0x0A, CHR 0x0A] @ ''S1''
                       @ [CHR 0x0A, CHR 0x0A] @ ''u1'') # rest"
    by blast
  with h q1 q2 p show ?thesis by simp
qed

subsection \<open>Three entries a cycle\<close>

lemma query_llm_feed_irrelevant:
  "query_llm (w\<lparr>feedparser_parse := f\<rparr>) x m st = query_llm w x m st"
  by (simp add: query_llm_def)

lemma fanout_feed_irrelevant:
  "fanout (w\<lparr>feedparser_parse := f\<rparr>) c ch m st = fanout w c ch m st"
  by (simp add: fanout_def send_def split: option.splits)

lemma process_entry_feed_irrelevant:
  "process_entry (w\<lparr>feedparser_parse := f\<rparr>) c ch e st = process_entry w c ch e st"
  by (auto simp: process_entry_def query_llm_feed_irrelevant fanout_feed_irrelevant
      split: option.splits sum.splits prod.splits)

lemma process_entries_feed_irrelevant:
  "process_entries (w\<lparr>feedparser_parse := f\<rparr>) c ch es st = process_entries w c ch es st"
  by (induction es arbitrary: st)
     (auto simp: process_entry_feed_irrelevant split: prod.splits option.splits)

lemma process_entry_trace_length:
  "length (trace (snd (process_entry w c ch e st))) \<le> length (trace st) + 5"
  by (auto simp: process_entry_def query_llm_summary query_llm_title add_article_eq Let_def
      fanout_def send_def
      split: prod.splits option.splits sum.splits if_splits)

lemma process_entries_trace_length:
  "length (trace (snd (process_entries w c ch es st))) \<le> length (trace st) + 5 * length es"
proof (induction es arbitrary: st)
  case Nil
  show ?case by simp
next
  case (Cons e es)
  obtain r st1 where p: "process_entry w c ch e st = (r, st1)" by (cases "process_entry w c ch e st")
  have g: "length (trace st1) \<le> length (trace st) + 5"
    using process_entry_trace_length [of w c ch e st] p by simp
  show ?case
  proof (cases r)
    case None
    with p g Cons.IH [of st1] show ?thesis by auto
  next
    case (Some x)
    with p g show ?thesis by simp
  qed
qed

lemma generate_calls_append [simp]:
  "generate_calls (xs @ ys) = generate_calls xs + generate_calls ys"
  by (simp add: generate_calls_def)

lemma generate_calls_Cons [simp]:
  "generate_calls [] = 0"
  "generate_calls (ev # evs) = (if is_Generate ev then 1 else 0) + generate_calls evs"
  by (simp_all add: generate_calls_def)

lemma fanout_generate_calls:
  "generate_calls (trace (snd (fanout w c ch m st))) = generate_calls (trace st)"
  by (auto simp: fanout_def send_def split: option.splits)

lemma fanout_generate_calls':
  "fanout w c ch m st = (r, st') \<Longrightarrow> generate_calls (trace st') = generate_calls (trace st)"
  using fanout_generate_calls [of w c ch m st] by simp

lemma process_entry_none_link:
  assumes "process_entry w c ch e st = (None, st1)"
  shows "\<exists>u. link e = Some u \<and> is_posted u (db st1)"
proof (cases "link e")
  case None
  with assms show ?thesis by (simp add: process_entry_def)
next
  case (Some u)
  with process_entry_done_posted [OF assms Some] show ?thesis by simp
qed

lemma process_entries_all_posted:
  "process_entries w c ch es st = (None, st') \<Longrightarrow>
     \<forall>e\<in>set es. \<exists>u. link e = Some u \<and> is_posted u (db st')"
proof (induction es arbitrary: st)
  case Nil
  show ?case by simp
next
  case (Cons e es)
  obtain r st1 where p: "process_entry w c ch e st = (r, st1)" by (cases "process_entry w c ch e st")
  with Cons.prems have r: "r = None" and rest: "process_entries w c ch es st1 = (None, st')"
    by (auto split: option.splits)
  from p r obtain u where u: "link e = Some u" "is_posted u (db st1)"
    using process_entry_none_link by blast
  have "set (db st1) \<subseteq> set (db st')"
    using process_entries_db_grows [of st1 w c ch es] rest by simp
  with u(2) have "is_posted u (db st')" by (rule posted_superset)
  with u(1) Cons.IH [OF rest] show ?case by simp
qed

lemma process_entry_new_rows:
  "\<forall>r\<in>set (db (snd (process_entry w c ch e st))). r \<in> set (db st) \<or> link e = Some (fst r)"
  by (auto simp: process_entry_def query_llm_summary query_llm_title add_article_eq Let_def
      dest: fanout_db' split: prod.splits option.splits sum.splits if_splits)

lemma process_entries_new_rows:
  "\<forall>r\<in>set (db (snd (process_entries w c ch es st))).
      r \<in> set (db st) \<or> (\<exists>e\<in>set es. link e = Some (fst r))"
proof (induction es arbitrary: st)
  case Nil
  show ?case by simp
next
  case (Cons e es)
  obtain r st1 where p: "process_entry w c ch e st = (r, st1)" by (cases "process_entry w c ch e st")
  have g: "\<forall>r\<in>set (db st1). r \<in> set (db st) \<or> link e = Some (fst r)"
    using process_entry_new_rows [of w c ch e st] p by simp
  show ?case
  proof (cases r)
    case None
    with p g Cons.IH [of st1] show ?thesis by fastforce
  next
    case (Some x)
    with p g show ?thesis by auto
  qed
qed

lemma process_entry_count:
  assumes "process_entry w c ch e st = (r, st1)"
  shows "\<exists>k\<le>1. length (db st1) = length (db st) + k
          \<and> (generate_calls (trace st1) = generate_calls (trace st) + 2 * k
             \<or> (r \<noteq> None \<and> generate_calls (trace st1) = generate_calls (trace st) + 2 * k + 2))"
proof (cases "\<exists>u raw t. link e = Some u \<and> \<not> is_posted u (db st) \<and> extract_text e = Inr raw \<and> title e = Some t")
  case True
  then obtain u raw t where h: "link e = Some u" "\<not> is_posted u (db st)"
    "extract_text e = Inr raw" "title e = Some t" by blast
  let ?kp = "llm_result (ollama w (clock st) (summary_instruction @ raw))"
  let ?ten = "llm_result (ollama w (Suc (clock st)) (title_instruction @ t))"
  let ?st2 = "await (Generate (title_instruction @ t)) (await (Generate (summary_instruction @ raw)) st)"
  obtain r3 st3 where f: "fanout w c ch (format_message ?ten ?kp u) ?st2 = (r3, st3)"
    by (cases "fanout w c ch (format_message ?ten ?kp u) ?st2")
  have d: "db st3 = db st" using fanout_db' [OF f] by simp
  have g: "generate_calls (trace st3) = generate_calls (trace st) + 2"
    using fanout_generate_calls' [OF f] by simp
  note pe = process_entry_fresh [OF h, of w c ch]
  show ?thesis
  proof (cases r3)
    case None
    with pe f assms have "r = None" "st1 = await (Sleep 3) (st3\<lparr>db := db st @ [(u, ?kp)]\<rparr>)"
      by simp_all
    with g show ?thesis by (intro exI [of _ 1]) simp
  next
    case (Some x)
    with pe f assms have "r = Some x" "st1 = st3" by simp_all
    with g d show ?thesis by (intro exI [of _ 0]) simp
  qed
next
  case False
  then have "st1 = st"
    using assms
    by (auto simp: process_entry_def split: option.splits sum.splits if_splits)
  then show ?thesis by (intro exI [of _ 0]) simp
qed

lemma process_entries_count:
  assumes "process_entries w c ch es st = (r, st')"
  shows "\<exists>k\<le>length es. length (db st') = length (db st) + k
          \<and> (generate_calls (trace st') = generate_calls (trace st) + 2 * k
             \<or> (r \<noteq> None \<and> generate_calls (trace st') = generate_calls (trace st) + 2 * k + 2))"
  using assms
proof (induction es arbitrary: st)
  case Nil
  then show ?case by simp
next
  case (Cons e es)
  obtain r1 st1 where p: "process_entry w c ch e st = (r1, st1)" by (cases "process_entry w c ch e st")
  from process_entry_count [OF p] obtain k1 where k1: "k1 \<le> 1"
    "length (db st1) = length (db st) + k1"
    "generate_calls (trace st1) = generate_calls (trace st) + 2 * k1
       \<or> (r1 \<noteq> None \<and> generate_calls (trace st1) = generate_calls (trace st) + 2 * k1 + 2)"
    by blast
  show ?case
  proof (cases r1)
    case (Some x)
    with p Cons.prems have "r = Some x" "st' = st1" by simp_all
    with k1 show ?thesis by (intro exI [of _ k1]) auto
  next
    case None
    with p Cons.prems have rest: "process_entries w c ch es st1 = (r, st')" by simp
    from Cons.IH [OF rest] obtain k where k: "k \<le> length es"
      "length (db st') = length (db st1) + k"
      "generate_calls (trace st') = generate_calls (trace st1) + 2 * k
         \<or> (r \<noteq> None \<and> generate_calls (trace st') = generate_calls (trace st1) + 2 * k + 2)"
      by blast
    from None k1(3) have g1: "generate_calls (trace st1) = generate_calls (trace st) + 2 * k1" by simp
    from k1(1,2) k g1 show ?thesis by (intro exI [of _ "k1 + k"]) auto
  qed
qed

text \<open>
  C8 (as amended). Of a fetched feed only the first three entries are looked at, in the
  order of the feed: cutting the feed down to them changes nothing, and every new row has
  the link of one of them. If the \<open>try\<close> block ends without an exception, each of the
  three is in the table afterwards. The language model is called twice for each new row and
  for nothing else, except for the one entry whose processing an exception may have ended:
  an entry that is posted already costs no call. At most three rows are added and at most
  sixteen calls are made to the outside.
\<close>

theorem only_first_three:
  assumes "channel_id cfg = Some ch" and "ch \<noteq> 0" and "channels w (clock st) ch"
    and "rss_url cfg = Some u" and "feedparser_parse w (clock st) u RSS_AGENT = Feed entries"
  shows "process_rss
           (w\<lparr>feedparser_parse :=
                (\<lambda>t u a. case feedparser_parse w t u a of
                            ParseRaises x \<Rightarrow> ParseRaises x
                          | Feed es \<Rightarrow> Feed (take 3 es))\<rparr>) c cfg st
           = process_rss w c cfg st
       \<and> (\<forall>r\<in>set (db (process_rss w c cfg st)).
             r \<in> set (db st) \<or> (\<exists>e\<in>set (take 3 entries). link e = Some (fst r)))
       \<and> (fst (process_rss_try w c cfg st) = None \<longrightarrow>
             (\<forall>e\<in>set (take 3 entries).
                \<exists>v. link e = Some v \<and> is_posted v (db (process_rss w c cfg st))))
       \<and> (\<exists>k\<le>3. length (db (process_rss w c cfg st)) = length (db st) + k
             \<and> (generate_calls (trace (process_rss w c cfg st))
                   = generate_calls (trace st) + 2 * k
                \<or> (fst (process_rss_try w c cfg st) \<noteq> None
                   \<and> generate_calls (trace (process_rss w c cfg st))
                       = generate_calls (trace st) + 2 * k + 2)))
       \<and> length (trace (process_rss w c cfg st)) \<le> length (trace st) + 16"
proof -
  let ?st1 = "await (Fetch u) st"
  obtain r st' where pe: "process_entries w c ch (take 3 entries) ?st1 = (r, st')"
    by (cases "process_entries w c ch (take 3 entries) ?st1")
  have "process_rss_try w c cfg st = process_entries w c ch (take 3 entries) ?st1"
    using assms by (cases "entries = []") (simp_all add: process_rss_try_def get_feed_def)
  with pe have tr: "process_rss_try w c cfg st = (r, st')" by simp
  then have rss: "process_rss w c cfg st = st'" by (simp add: process_rss_def)
  have 1: "process_rss
           (w\<lparr>feedparser_parse :=
                (\<lambda>t u a. case feedparser_parse w t u a of
                            ParseRaises x \<Rightarrow> ParseRaises x
                          | Feed es \<Rightarrow> Feed (take 3 es))\<rparr>) c cfg st
           = process_rss w c cfg st"
    by (auto simp: process_rss_def process_rss_try_def get_feed_def process_entries_feed_irrelevant
        split: option.splits feed_reply.splits)
  have 2: "\<forall>r\<in>set (db st'). r \<in> set (db st) \<or> (\<exists>e\<in>set (take 3 entries). link e = Some (fst r))"
    using process_entries_new_rows [of w c ch "take 3 entries" ?st1] pe by simp
  have 3: "\<forall>e\<in>set (take 3 entries). \<exists>v. link e = Some v \<and> is_posted v (db st')" if "r = None"
    using process_entries_all_posted [of w c ch "take 3 entries" ?st1 st'] pe that by simp
  have 4: "\<exists>k\<le>3. length (db st') = length (db st) + k
             \<and> (generate_calls (trace st') = generate_calls (trace st) + 2 * k
                \<or> (r \<noteq> None \<and> generate_calls (trace st') = generate_calls (trace st) + 2 * k + 2))"
  proof -
    from process_entries_count [OF pe] obtain k where k: "k \<le> length (take 3 entries)"
      "length (db st') = length (db ?st1) + k"
      "generate_calls (trace st') = generate_calls (trace ?st1) + 2 * k
         \<or> (r \<noteq> None \<and> generate_calls (trace st') = generate_calls (trace ?st1) + 2 * k + 2)"
      by blast
    from k(1) have "k \<le> 3" by simp
    with k(2,3) show ?thesis by (intro exI [of _ k]) simp
  qed
  have 5: "length (trace st') \<le> length (trace st) + 16"
    using process_entries_trace_length [of w c ch "take 3 entries" ?st1] pe by simp
  from 1 2 3 4 5 show ?thesis unfolding rss tr by simp
qed

theorem only_first_three_witness:
  "channel_id (snd source_X) = Some 7 \<and> (7::nat) \<noteq> 0 \<and> channels world_ten (clock st0) 7
   \<and> rss_url (snd source_X) = Some ''F''
   \<and> feedparser_parse world_ten (clock st0) ''F'' RSS_AGENT = Feed ten_items
   \<and> length ten_items = 10
   \<and> db (process_rss world_ten ''X'' (snd source_X) st0)
       = [(''u0'', ''S1''), (''u1'', ''S1''), (''u2'', ''S1'')]
   \<and> generate_calls (trace (process_rss world_ten ''X'' (snd source_X) st0)) = 6
   \<and> db (process_rss world_ten ''X'' (snd source_X) st_u0)
       = [(''u0'', ''S0''), (''u1'', ''S1''), (''u2'', ''S1'')]
   \<and> generate_calls (trace (process_rss world_ten ''X'' (snd source_X) st_u0)) = 4
   \<and> process_rss world_ten ''X'' (snd source_X) (process_rss world_ten ''X'' (snd source_X) st0)
       = await (Fetch ''F'') (process_rss world_ten ''X'' (snd source_X) st0)"
proof -
  have h: "channel_id (snd source_X) = Some 7" "(7::nat) \<noteq> 0" "channels world_ten (clock st0) 7"
    "rss_url (snd source_X) = Some ''F''"
    "feedparser_parse world_ten (clock st0) ''F'' RSS_AGENT = Feed ten_items"
    by (simp_all add: scenario_defs)
  have l: "length ten_items = 10" by (simp add: ten_items_def)
  have a: "process_rss world_ten ''X'' (snd source_X) st0
       = \<lparr>db = [(''u0'', ''S1''), (''u1'', ''S1''), (''u2'', ''S1'')], clock = 16,
          trace = [Fetch ''F'',
                   Generate (summary_instruction @ ''d''), Generate (title_instruction @ ''T''),
                   Send 7 (format_message ''H1'' ''S1'' ''u0''),
                   Send GLOBAL_CHANNEL_ID (''[X] '' @ format_message ''H1'' ''S1'' ''u0''), Sleep 3,
                   Generate (summary_instruction @ ''d''), Generate (title_instruction @ ''T''),
                   Send 7 (format_message ''H1'' ''S1'' ''u1''),
                   Send GLOBAL_CHANNEL_ID (''[X] '' @ format_message ''H1'' ''S1'' ''u1''), Sleep 3,
                   Generate (summary_instruction @ ''d''), Generate (title_instruction @ ''T''),
                   Send 7 (format_message ''H1'' ''S1'' ''u2''),
                   Send GLOBAL_CHANNEL_ID (''[X] '' @ format_message ''H1'' ''S1'' ''u2''), Sleep 3]\<rparr>"
    by (simp add: bot_defs scenario_defs)
  have b: "process_rss world_ten ''X'' (snd source_X) st_u0
       = \<lparr>db = [(''u0'', ''S0''), (''u1'', ''S1''), (''u2'', ''S1'')], clock = 11,
          trace = [Fetch ''F'',
                   Generate (summary_instruction @ ''d''), Generate (title_instruction @ ''T''),
                   Send 7 (format_message ''H1'' ''S1'' ''u1''),
                   Send GLOBAL_CHANNEL_ID (''[X] '' @ format_message ''H1'' ''S1'' ''u1''), Sleep 3,
                   Generate (summary_instruction @ ''d''), Generate (title_instruction @ ''T''),
                   Send 7 (format_message ''H1'' ''S1'' ''u2''),
                   Send GLOBAL_CHANNEL_ID (''[X] '' @ format_message ''H1'' ''S1'' ''u2''), Sleep 3]\<rparr>"
    by (simp add: bot_defs scenario_defs)
  have c: "process_rss world_ten ''X'' (snd source_X) (process_rss world_ten ''X'' (snd source_X) st0)
       = await (Fetch ''F'') (process_rss world_ten ''X'' (snd source_X) st0)"
    unfolding a by (simp add: bot_defs scenario_defs)
  from only_first_three [OF h, of "''X''"]
  have t: "length (trace (process_rss world_ten ''X'' (snd source_X) st0)) \<le> length (trace st0) + 16"
    by blast
  have ga: "generate_calls (trace (process_rss world_ten ''X'' (snd source_X) st0)) = 6"
    unfolding a by (simp add: generate_calls_def)
  have gb: "generate_calls (trace (process_rss world_ten ''X'' (snd source_X) st_u0)) = 4"
    unfolding b by (simp add: generate_calls_def)
  have da: "db (process_rss world_ten ''X'' (snd source_X) st0)
       = [(''u0'', ''S1''), (''u1'', ''S1''), (''u2'', ''S1'')]" unfolding a by simp
  have db: "db (process_rss world_ten ''X'' (snd source_X) st_u0)
       = [(''u0'', ''S0''), (''u1'', ''S1''), (''u2'', ''S1'')]" unfolding b by simp
  from t h l da ga db gb c show ?thesis by blast
qed

text \<open>
  A feed of ten entries with a Discord that rejects every message: the first entry is
  summarised, its send raises, and the cycle is over for the source with no entry recorded.
\<close>

theorem ten_items_discord_down:
  "length ten_items = 10
   \<and> process_rss world_ten_discord_down ''X'' (snd source_X) st0
       = \<lparr>db = [], clock = 4,
          trace = [Fetch ''F'', Generate (summary_instruction @ ''d''),
                   Generate (title_instruction @ ''T''),
                   Send 7 (format_message ''H1'' ''S1'' ''u0'')]\<rparr>"
  by (simp add: bot_defs scenario_defs)

subsection \<open>Sources\<close>

text \<open>
  C5. \<open>news_loop\<close> visits the sources in the order of the table, and an exception in the
  \<open>try\<close> block of one source does not end the cycle: the sources behind it are processed
  from the state that the failing source left.
\<close>

theorem source_isolation:
  "news_loop w (pre @ (c, cfg) # post) st
     = news_loop w post (process_rss w c cfg (news_loop w pre st))
   \<and> (process_rss_try w c cfg (news_loop w pre st) = (Some x, st')
      \<longrightarrow> news_loop w (pre @ (c, cfg) # post) st = news_loop w post st')"
  by (simp add: news_loop_append process_rss_def)

theorem source_isolation_witness:
  "process_rss_try world_A_down (fst source_A) (snd source_A) (news_loop world_A_down [] st0)
     = (Some (RuntimeError ''fetch''), \<lparr>db = [], clock = 1, trace = [Fetch ''FA'']\<rparr>)
   \<and> db (news_loop world_A_down ([] @ (fst source_A, snd source_A) # [source_X]) st0) = [(''u1'', ''S1'')]"
  using source_isolation [of world_A_down "[]" "fst source_A" "snd source_A" "[source_X]" st0]
  by (simp add: bot_defs scenario_defs)

end
